theory Spec2Isabelle
  imports Complex_Main "HOL-Library.Multiset" "HOL-Library.Product_Lexorder" "HOL-Library.Sublist"
begin

section \<open>Values exchanged with the reasoning oracle\<close>

text \<open>
  The services of \<^verbatim>\<open>multi_agent_service.py\<close> pass around whatever \<^verbatim>\<open>json.loads\<close>
  returns. A JSON value is modelled as a datatype; an object is an association list read
  with \<open>map_of\<close>. Numbers are exact reals (the source uses Python ints and binary
  floats; no claim below depends on rounding).
\<close>

datatype json =
    JNull
  | JBool bool
  | JNum real
  | JStr string
  | JList "json list"
  | JObj "(string \<times> json) list"

text \<open>
  Exceptions are values. Every constructor is a subclass of Python's \<^verbatim>\<open>Exception\<close>
  and carries what \<^verbatim>\<open>str(e)\<close> is built from: a \<^verbatim>\<open>KeyError\<close> carries the missing
  key, the others carry their message. \<open>OtherError\<close> stands for every other exception an
  oracle client can raise (time-outs, connection and API errors).
\<close>

datatype exn =
    JSONDecodeError string
  | KeyError string
  | AttributeError string
  | TypeError string
  | OtherError string

fun str_exn :: "exn \<Rightarrow> string" where
  "str_exn (JSONDecodeError m) = m"
| "str_exn (KeyError k) = [CHR 0x27] @ k @ [CHR 0x27]"
| "str_exn (AttributeError m) = m"
| "str_exn (TypeError m) = m"
| "str_exn (OtherError m) = m"

fun is_JSONDecodeError :: "exn \<Rightarrow> bool" where
  "is_JSONDecodeError (JSONDecodeError m) = True"
| "is_JSONDecodeError e = False"

text \<open>Python truth value of a JSON value, as \<^verbatim>\<open>if analysis.get("can_help"):\<close> tests it.\<close>

fun truthy :: "json \<Rightarrow> bool" where
  "truthy JNull = False"
| "truthy (JBool b) = b"
| "truthy (JNum n) = (n \<noteq> 0)"
| "truthy (JStr s) = (s \<noteq> [])"
| "truthy (JList xs) = (xs \<noteq> [])"
| "truthy (JObj kvs) = (kvs \<noteq> [])"

fun type_name :: "json \<Rightarrow> string" where
  "type_name JNull = ''NoneType''"
| "type_name (JBool b) = ''bool''"
| "type_name (JNum n) = ''float''"
| "type_name (JStr s) = ''str''"
| "type_name (JList xs) = ''list''"
| "type_name (JObj kvs) = ''dict''"

text \<open>
  \<^verbatim>\<open>d.get(k)\<close>: \<open>None\<close> when the key is absent; an \<^verbatim>\<open>AttributeError\<close> when \<open>d\<close> is
  not a dict (a JSON text may well be a list or a number). The message names the type of
  \<open>d\<close>; every number is called a float here, Python would call some of them int.
\<close>

fun dict_get :: "json \<Rightarrow> string \<Rightarrow> exn + json option" where
  "dict_get (JObj kvs) k = Inr (map_of kvs k)"
| "dict_get v k =
     Inl (AttributeError ([CHR 0x27] @ type_name v @ [CHR 0x27] @ '' object has no attribute ''
            @ [CHR 0x27] @ ''get'' @ [CHR 0x27]))"

text \<open>
  \<^verbatim>\<open>d[k]\<close>: a missing key raises \<^verbatim>\<open>KeyError\<close>. The service only subscripts a value
  that has already answered \<^verbatim>\<open>.get\<close>, so the second equation is never reached from it.
\<close>

fun dict_index :: "json \<Rightarrow> string \<Rightarrow> exn + json" where
  "dict_index (JObj kvs) k = (case map_of kvs k of None \<Rightarrow> Inl (KeyError k) | Some v \<Rightarrow> Inr v)"
| "dict_index v k =
     Inl (TypeError ([CHR 0x27] @ type_name v @ [CHR 0x27] @ '' object is not subscriptable''))"

fun truthy_opt :: "json option \<Rightarrow> bool" where
  "truthy_opt None = False"
| "truthy_opt (Some v) = truthy v"

fun or_default :: "json option \<Rightarrow> json \<Rightarrow> json" where
  "or_default None d = d"
| "or_default (Some v) d = v"

fun or_null :: "json option \<Rightarrow> json" where
  "or_null None = JNull"
| "or_null (Some v) = v"

section \<open>Strings\<close>

text \<open>
  \<^verbatim>\<open>str.lower\<close> on ASCII text and the substring test \<^verbatim>\<open>sub in s\<close>. Strings are byte
  lists here, so only the letters A to Z change case.
\<close>

definition lower_char :: "char \<Rightarrow> char" where
  "lower_char c =
     (case map_of (zip ''ABCDEFGHIJKLMNOPQRSTUVWXYZ'' ''abcdefghijklmnopqrstuvwxyz'') c of
        None \<Rightarrow> c
      | Some l \<Rightarrow> l)"

definition lower :: "string \<Rightarrow> string" where
  "lower s = map lower_char s"

fun starts_with :: "string \<Rightarrow> string \<Rightarrow> bool" where
  "starts_with [] s = True"
| "starts_with (p # ps) [] = False"
| "starts_with (p # ps) (c # cs) = (p = c \<and> starts_with ps cs)"

fun str_in :: "string \<Rightarrow> string \<Rightarrow> bool" where
  "str_in sub [] = (sub = [])"
| "str_in sub (c # cs) = (starts_with sub (c # cs) \<or> str_in sub cs)"

section \<open>The hospital agent\<close>

text \<open>
  \<^verbatim>\<open>HospitalAgent\<close>. Of \<^verbatim>\<open>hospital_data\<close> only the entry \<^verbatim>\<open>"type"\<close> is read by the code
  below; it is a string when present (\<^verbatim>\<open>.lower()\<close> is called on it), and
  \<^verbatim>\<open>.get("type", "")\<close> supplies the empty string when it is absent.
\<close>

record hospital_agent =
  hospital_id :: string
  hospital_name :: string
  hospital_type :: "string option"
  personality :: string

definition generate_personality :: "string \<Rightarrow> string option \<Rightarrow> string" where
  "generate_personality name ty =
     (if str_in ''teaching'' (lower name) then ''academic_collaborative''
      else if str_in ''private'' (lower (case ty of None \<Rightarrow> [] | Some t \<Rightarrow> t))
        then ''business_oriented''
      else ''community_focused'')"

definition HospitalAgent :: "string \<Rightarrow> string \<Rightarrow> string option \<Rightarrow> hospital_agent" where
  "HospitalAgent hid name ty =
     \<lparr>hospital_id = hid, hospital_name = name, hospital_type = ty,
      personality = generate_personality name ty\<rparr>"

text \<open>
  One oracle exchange, as the \<^verbatim>\<open>try\<close> block of \<^verbatim>\<open>analyze_request\<close>,
  \<^verbatim>\<open>negotiate_offer\<close> and \<^verbatim>\<open>_make_decision\<close> sees it: the client call, the extraction
  of the JSON text and \<^verbatim>\<open>json.loads\<close> either raise on the way (a time-out or another
  client error, or a \<^verbatim>\<open>JSONDecodeError\<close> for text that is not JSON) or yield the parsed
  value.
\<close>

datatype oracle_outcome = Raises exn | Parsed json

fun try_body :: "oracle_outcome \<Rightarrow> exn + json" where
  "try_body (Raises e) = Inl e"
| "try_body (Parsed j) = Inr j"

definition analyze_request :: "hospital_agent \<Rightarrow> oracle_outcome \<Rightarrow> exn + json" where
  "analyze_request agent reply =
     (case try_body reply of
        Inr j \<Rightarrow> Inr j
      | Inl e \<Rightarrow>
          if is_JSONDecodeError e then
            Inr (JObj [(''can_help'', JBool False),
                       (''reasoning'', JStr ''Invalid response format''),
                       (''confidence'', JNum 0)])
          else
            Inr (JObj [(''can_help'', JBool False),
                       (''reasoning'', JStr (''System error: '' @ str_exn e)),
                       (''confidence'', JNum 0)]))"

definition negotiate_offer :: "hospital_agent \<Rightarrow> oracle_outcome \<Rightarrow> exn + json" where
  "negotiate_offer agent reply =
     (case try_body reply of
        Inr j \<Rightarrow> Inr j
      | Inl e \<Rightarrow> Inr (JObj [(''adjust_offer'', JBool False)]))"

section \<open>Requests, offers, sessions and events\<close>

text \<open>
  The dataclasses of \<^verbatim>\<open>multi_agent_service.py\<close>. Identifiers drawn from \<^verbatim>\<open>uuid4\<close> and
  values read from the clock (\<^verbatim>\<open>needed_from\<close>, \<^verbatim>\<open>created_at\<close>, event time stamps) are
  left out: no control flow depends on them. A dataclass does not check the types of its
  fields, so \<^verbatim>\<open>quantity\<close>, \<^verbatim>\<open>price_per_unit\<close> and \<^verbatim>\<open>conditions\<close> of an offer hold
  whatever JSON value the judgment carried.
\<close>

record resource_request =
  req_hospital_id :: string
  req_hospital_name :: string
  req_resource_type :: string
  req_quantity :: int
  req_urgency :: string
  req_duration_days :: int
  req_max_price :: real

record resource_offer =
  offer_hospital_id :: string
  offer_hospital_name :: string
  offer_resource_type :: string
  offer_quantity :: json
  offer_price_per_unit :: json
  offer_conditions :: json

datatype session_status =
    Initiated
  | Broadcasting
  | Collecting_responses
  | Negotiating
  | Deciding
  | Completed
  | Failed

record negotiation_session =
  initiator_hospital :: string
  participant_hospitals :: "string list"
  request :: resource_request
  offers :: "resource_offer list"
  status :: session_status
  messages :: "(string \<times> json) list"
  final_agreement :: "json option"

text \<open>
  The dicts the generator yields, one constructor per value of their \<^verbatim>\<open>"event"\<close> entry,
  with the rest of the dict as arguments. The last two are built by the route
  (\<^verbatim>\<open>event_generator\<close> in \<^verbatim>\<open>api/routes/multi_agent.py\<close>), not by the service.
\<close>

datatype event =
    Negotiation_initiated resource_request
  | Broadcasting_request "string list"
  | Agent_analyzing string
  | Offer_received string resource_offer json
  | Offer_declined string json
  | Negotiation_round_started nat
  | Offer_adjusted string json
  | Making_decision
  | Negotiation_completed json
  | Stream_complete
  | Error_event string

fun event_name :: "event \<Rightarrow> string" where
  "event_name (Negotiation_initiated r) = ''negotiation_initiated''"
| "event_name (Broadcasting_request ns) = ''broadcasting_request''"
| "event_name (Agent_analyzing a) = ''agent_analyzing''"
| "event_name (Offer_received a ofr why) = ''offer_received''"
| "event_name (Offer_declined a why) = ''offer_declined''"
| "event_name (Negotiation_round_started n) = ''negotiation_round_started''"
| "event_name (Offer_adjusted a adj) = ''offer_adjusted''"
| "event_name Making_decision = ''making_decision''"
| "event_name (Negotiation_completed d) = ''negotiation_completed''"
| "event_name Stream_complete = ''stream_complete''"
| "event_name (Error_event m) = ''error''"

text \<open>The \<^verbatim>\<open>"agent"\<close> entry of an event, for the events that have one.\<close>

fun event_agent :: "event \<Rightarrow> string option" where
  "event_agent (Agent_analyzing a) = Some a"
| "event_agent (Offer_received a ofr why) = Some a"
| "event_agent (Offer_declined a why) = Some a"
| "event_agent (Offer_adjusted a adj) = Some a"
| "event_agent e = None"

section \<open>The coordination service\<close>

text \<open>
  \<^verbatim>\<open>MultiAgentCoordinationService\<close>: the agent registry is a Python dict, kept here as an
  association list in insertion order. The oracle of one run answers each agent's
  \<^verbatim>\<open>analyze_request\<close> and \<^verbatim>\<open>negotiate_offer\<close> call (each agent is asked at most once of
  either kind in a run) and the one decision call; a run is determined by these answers.
\<close>

record service =
  agents :: "(string \<times> hospital_agent) list"

record oracle_replies =
  analyze_reply :: "string \<Rightarrow> oracle_outcome"
  negotiate_reply :: "string \<Rightarrow> oracle_outcome"
  decision_reply :: oracle_outcome

text \<open>
  The state of a running generator: the session it mutates, the events it has yielded so
  far, and every value it has assigned to \<^verbatim>\<open>session.status\<close>, oldest first.
\<close>

record run_state =
  session :: negotiation_session
  yielded :: "event list"
  status_log :: "session_status list"

definition yield :: "event \<Rightarrow> run_state \<Rightarrow> run_state" where
  "yield e st = st\<lparr>yielded := yielded st @ [e]\<rparr>"

definition set_status :: "session_status \<Rightarrow> run_state \<Rightarrow> run_state" where
  "set_status s st =
     st\<lparr>session := (session st)\<lparr>status := s\<rparr>, status_log := status_log st @ [s]\<rparr>"

definition append_message :: "string \<Rightarrow> json \<Rightarrow> run_state \<Rightarrow> run_state" where
  "append_message hid content st =
     st\<lparr>session := (session st)\<lparr>messages := messages (session st) @ [(hid, content)]\<rparr>\<rparr>"

definition append_offer :: "resource_offer \<Rightarrow> run_state \<Rightarrow> run_state" where
  "append_offer ofr st =
     st\<lparr>session := (session st)\<lparr>offers := offers (session st) @ [ofr]\<rparr>\<rparr>"

text \<open>
  One iteration of the loop of phase 2 (\<^verbatim>\<open>for hospital_id in participant_ids\<close>). The
  result is the state reached and the exception raised, if any.
\<close>

definition collect_one ::
  "(string \<times> hospital_agent) list \<Rightarrow> (string \<Rightarrow> oracle_outcome) \<Rightarrow> string \<Rightarrow> string \<Rightarrow>
   run_state \<Rightarrow> run_state \<times> exn option" where
  "collect_one ags analyze rtype hid st =
     (case map_of ags hid of
        None \<Rightarrow> (st, Some (KeyError hid))
      | Some agent \<Rightarrow>
          (let st1 = yield (Agent_analyzing (hospital_name agent)) st in
           case analyze_request agent (analyze hid) of
             Inl e \<Rightarrow> (st1, Some e)
           | Inr analysis \<Rightarrow>
               (let st2 = append_message hid analysis st1 in
                case dict_get analysis ''can_help'' of
                  Inl e \<Rightarrow> (st2, Some e)
                | Inr can_help \<Rightarrow>
                    if truthy_opt can_help then
                      (case dict_index analysis ''quantity_available'' of
                         Inl e \<Rightarrow> (st2, Some e)
                       | Inr q \<Rightarrow>
                           (case dict_index analysis ''proposed_price_per_unit'' of
                              Inl e \<Rightarrow> (st2, Some e)
                            | Inr p \<Rightarrow>
                                (case dict_get analysis ''conditions'' of
                                   Inl e \<Rightarrow> (st2, Some e)
                                 | Inr c \<Rightarrow>
                                     (case dict_get analysis ''reasoning'' of
                                        Inl e \<Rightarrow> (st2, Some e)
                                      | Inr why \<Rightarrow>
                                          (let ofr = \<lparr>offer_hospital_id = hid,
                                                      offer_hospital_name = hospital_name agent,
                                                      offer_resource_type = rtype,
                                                      offer_quantity = q,
                                                      offer_price_per_unit = p,
                                                      offer_conditions = or_default c (JList [])\<rparr>;
                                               st3 = append_offer ofr st2
                                           in (yield (Offer_received (hospital_name agent) ofr
                                                        (or_null why)) st3, None))))))
                    else
                      (case dict_get analysis ''reasoning'' of
                         Inl e \<Rightarrow> (st2, Some e)
                       | Inr why \<Rightarrow>
                           (yield (Offer_declined (hospital_name agent) (or_null why)) st2,
                            None)))))"

fun collect_responses ::
  "(string \<times> hospital_agent) list \<Rightarrow> (string \<Rightarrow> oracle_outcome) \<Rightarrow> string \<Rightarrow> string list \<Rightarrow>
   run_state \<Rightarrow> run_state \<times> exn option" where
  "collect_responses ags analyze rtype [] st = (st, None)"
| "collect_responses ags analyze rtype (hid # hids) st =
     (case collect_one ags analyze rtype hid st of
        (st', Some e) \<Rightarrow> (st', Some e)
      | (st', None) \<Rightarrow> collect_responses ags analyze rtype hids st')"

text \<open>
  One iteration of the loop of phase 3 (\<^verbatim>\<open>for offer in session.offers\<close>): the agent is
  asked, and an \<^verbatim>\<open>offer_adjusted\<close> event is yielded when its answer has a true
  \<^verbatim>\<open>adjust_offer\<close>. Nothing is assigned to the offer or to the session.
\<close>

definition negotiate_one ::
  "(string \<times> hospital_agent) list \<Rightarrow> (string \<Rightarrow> oracle_outcome) \<Rightarrow> resource_offer \<Rightarrow>
   run_state \<Rightarrow> run_state \<times> exn option" where
  "negotiate_one ags negotiate ofr st =
     (case map_of ags (offer_hospital_id ofr) of
        None \<Rightarrow> (st, Some (KeyError (offer_hospital_id ofr)))
      | Some agent \<Rightarrow>
          (case negotiate_offer agent (negotiate (offer_hospital_id ofr)) of
             Inl e \<Rightarrow> (st, Some e)
           | Inr negotiation_result \<Rightarrow>
               (case dict_get negotiation_result ''adjust_offer'' of
                  Inl e \<Rightarrow> (st, Some e)
                | Inr adjust \<Rightarrow>
                    if truthy_opt adjust then
                      (yield (Offer_adjusted (hospital_name agent) negotiation_result) st, None)
                    else (st, None))))"

fun negotiate_all ::
  "(string \<times> hospital_agent) list \<Rightarrow> (string \<Rightarrow> oracle_outcome) \<Rightarrow> resource_offer list \<Rightarrow>
   run_state \<Rightarrow> run_state \<times> exn option" where
  "negotiate_all ags negotiate [] st = (st, None)"
| "negotiate_all ags negotiate (ofr # ofrs) st =
     (case negotiate_one ags negotiate ofr st of
        (st', Some e) \<Rightarrow> (st', Some e)
      | (st', None) \<Rightarrow> negotiate_all ags negotiate ofrs st')"

definition negotiation_round ::
  "(string \<times> hospital_agent) list \<Rightarrow> (string \<Rightarrow> oracle_outcome) \<Rightarrow> run_state \<Rightarrow>
   run_state \<times> exn option" where
  "negotiation_round ags negotiate st =
     (if length (offers (session st)) > 1 then
        (let st1 = set_status Negotiating st;
             st2 = yield (Negotiation_round_started (length (offers (session st1)))) st1
         in negotiate_all ags negotiate (offers (session st2)) st2)
      else (st, None))"

text \<open>\<^verbatim>\<open>_make_decision\<close>: without offers no oracle is asked.\<close>

definition make_decision :: "oracle_outcome \<Rightarrow> negotiation_session \<Rightarrow> exn + json" where
  "make_decision reply s =
     (if offers s = [] then
        Inr (JObj [(''success'', JBool False),
                   (''reason'', JStr ''No offers received''),
                   (''recommendations'',
                      JList [JStr ''Try increasing budget'', JStr ''Reduce quantity'',
                             JStr ''Extend timeline''])])
      else
        (case try_body reply of
           Inr j \<Rightarrow> Inr j
         | Inl e \<Rightarrow>
             Inr (JObj [(''success'', JBool False),
                        (''reason'', JStr ''System error during decision making'')])))"

definition decide :: "oracle_outcome \<Rightarrow> run_state \<Rightarrow> run_state \<times> exn option" where
  "decide reply st =
     (let st1 = set_status Deciding st;
          st2 = yield Making_decision st1
      in case make_decision reply (session st2) of
           Inl e \<Rightarrow> (st2, Some e)
         | Inr decision \<Rightarrow>
             (let st3 = st2\<lparr>session := (session st2)\<lparr>final_agreement := Some decision\<rparr>\<rparr>;
                  st4 = set_status Completed st3
              in (yield (Negotiation_completed decision) st4, None)))"

text \<open>
  A run of the generator \<^verbatim>\<open>initiate_negotiation\<close>: either it raises before the session
  exists (an unknown initiator, on the first \<^verbatim>\<open>__anext__\<close>), or it reaches a state and
  then returns (\<open>None\<close>) or raises.
\<close>

datatype run_result = Not_started exn | Run run_state "exn option"

text \<open>
  The generator up to the loop of phase 2: the request and the session are built, the
  first two events are yielded, and the status is \<^verbatim>\<open>collecting_responses\<close>.
\<close>

definition open_session ::
  "service \<Rightarrow> string \<Rightarrow> hospital_agent \<Rightarrow> string \<Rightarrow> int \<Rightarrow> string \<Rightarrow> int \<Rightarrow> real \<Rightarrow> run_state" where
  "open_session svc initiator_hospital_id initiator rtype qty urg duration max_budget =
     (let req = \<lparr>req_hospital_id = initiator_hospital_id,
                 req_hospital_name = hospital_name initiator,
                 req_resource_type = rtype,
                 req_quantity = qty,
                 req_urgency = urg,
                 req_duration_days = duration,
                 req_max_price = max_budget\<rparr>;
          participant_ids = filter (\<lambda>hid. hid \<noteq> initiator_hospital_id) (map fst (agents svc));
          s = \<lparr>initiator_hospital = initiator_hospital_id,
               participant_hospitals = participant_ids,
               request = req,
               offers = [],
               status = Initiated,
               messages = [],
               final_agreement = None\<rparr>;
          st0 = \<lparr>session = s, yielded = [], status_log = [Initiated]\<rparr>;
          st1 = yield (Negotiation_initiated req) st0;
          st2 = set_status Broadcasting st1;
          st3 = yield (Broadcasting_request
                         (map (\<lambda>hid. case map_of (agents svc) hid of
                                        None \<Rightarrow> [] | Some a \<Rightarrow> hospital_name a)
                              participant_ids)) st2
      in set_status Collecting_responses st3)"

definition initiate_negotiation ::
  "service \<Rightarrow> oracle_replies \<Rightarrow> string \<Rightarrow> string \<Rightarrow> int \<Rightarrow> string \<Rightarrow> int \<Rightarrow> real \<Rightarrow> run_result" where
  "initiate_negotiation svc orc initiator_hospital_id rtype qty urg duration max_budget =
     (case map_of (agents svc) initiator_hospital_id of
        None \<Rightarrow> Not_started (KeyError initiator_hospital_id)
      | Some initiator \<Rightarrow>
          (let st4 = open_session svc initiator_hospital_id initiator rtype qty urg duration
                       max_budget
           in case collect_responses (agents svc) (analyze_reply orc) rtype
                     (participant_hospitals (session st4)) st4 of
                (st5, Some e) \<Rightarrow> Run st5 (Some e)
              | (st5, None) \<Rightarrow>
                  (case negotiation_round (agents svc) (negotiate_reply orc) st5 of
                     (st6, Some e) \<Rightarrow> Run st6 (Some e)
                   | (st6, None) \<Rightarrow>
                       (case decide (decision_reply orc) st6 of
                          (st7, r) \<Rightarrow> Run st7 r))))"

fun emitted :: "run_result \<Rightarrow> event list" where
  "emitted (Not_started e) = []"
| "emitted (Run st r) = yielded st"

fun raised :: "run_result \<Rightarrow> exn option" where
  "raised (Not_started e) = Some e"
| "raised (Run st r) = r"

fun status_trace :: "run_result \<Rightarrow> session_status list" where
  "status_trace (Not_started e) = []"
| "status_trace (Run st r) = status_log st"

fun final_session :: "run_result \<Rightarrow> negotiation_session option" where
  "final_session (Not_started e) = None"
| "final_session (Run st r) = Some (session st)"


text \<open>The three agents of \<^verbatim>\<open>_initialize_demo_hospitals\<close>.\<close>

definition demo_service :: service where
  "demo_service =
     \<lparr>agents =
        [(''HOSP_A'', HospitalAgent ''HOSP_A'' ''Apollo City Hospital''
                        (Some ''Private Multi-specialty'')),
         (''HOSP_B'', HospitalAgent ''HOSP_B'' ''Max Super Specialty Hospital''
                        (Some ''Private Tertiary Care'')),
         (''HOSP_C'', HospitalAgent ''HOSP_C'' ''Fortis Medical Centre''
                        (Some ''Private Teaching Hospital''))]\<rparr>"

text \<open>
  Vocabulary for the statements below. An event's phase is the position, in the phase
  list, of the phase that yields it; its tag is its name with its agent. An exchange is
  judged helpful when it yields a judgment with a true \<^verbatim>\<open>can_help\<close>, and wants an
  adjustment when it yields one with a true \<^verbatim>\<open>adjust_offer\<close>.
\<close>

fun event_phase :: "event \<Rightarrow> nat" where
  "event_phase (Negotiation_initiated r) = 0"
| "event_phase (Broadcasting_request ns) = 1"
| "event_phase (Agent_analyzing a) = 2"
| "event_phase (Offer_received a ofr why) = 2"
| "event_phase (Offer_declined a why) = 2"
| "event_phase (Negotiation_round_started n) = 3"
| "event_phase (Offer_adjusted a adj) = 3"
| "event_phase Making_decision = 4"
| "event_phase (Negotiation_completed d) = 5"
| "event_phase Stream_complete = 6"
| "event_phase (Error_event m) = 6"

definition event_tag :: "event \<Rightarrow> string \<times> string option" where
  "event_tag e = (event_name e, event_agent e)"


definition judged_helpful :: "oracle_outcome \<Rightarrow> bool" where
  "judged_helpful reply =
     (case try_body reply of
        Inl e \<Rightarrow> False
      | Inr j \<Rightarrow> (case dict_get j ''can_help'' of Inl e \<Rightarrow> False | Inr v \<Rightarrow> truthy_opt v))"

definition wants_adjustment :: "oracle_outcome \<Rightarrow> bool" where
  "wants_adjustment reply =
     (case try_body reply of
        Inl e \<Rightarrow> False
      | Inr j \<Rightarrow> (case dict_get j ''adjust_offer'' of Inl e \<Rightarrow> False | Inr v \<Rightarrow> truthy_opt v))"

definition agent_name :: "(string \<times> hospital_agent) list \<Rightarrow> string \<Rightarrow> string" where
  "agent_name ags hid = (case map_of ags hid of None \<Rightarrow> [] | Some a \<Rightarrow> hospital_name a)"

definition phase_list :: "session_status list" where
  "phase_list = [Initiated, Broadcasting, Collecting_responses, Negotiating, Deciding, Completed]"

fun phase_index :: "session_status \<Rightarrow> nat" where
  "phase_index Initiated = 0"
| "phase_index Broadcasting = 1"
| "phase_index Collecting_responses = 2"
| "phase_index Negotiating = 3"
| "phase_index Deciding = 4"
| "phase_index Completed = 5"
| "phase_index Failed = 6"

text \<open>
  An exchange is judged declining when the judgment it yields is a dict whose
  \<^verbatim>\<open>can_help\<close> is false or missing; a raising exchange is one, by the defaults of
  \<open>analyze_request\<close>.
\<close>

definition judged_declining :: "oracle_outcome \<Rightarrow> bool" where
  "judged_declining reply =
     (case try_body reply of
        Inl e \<Rightarrow> True
      | Inr j \<Rightarrow> (case dict_get j ''can_help'' of Inl e \<Rightarrow> False | Inr v \<Rightarrow> \<not> truthy_opt v))"

text \<open>The decision of \<^verbatim>\<open>_make_decision\<close> for a session without offers.\<close>

definition no_offers_decision :: json where
  "no_offers_decision =
     JObj [(''success'', JBool False),
           (''reason'', JStr ''No offers received''),
           (''recommendations'',
              JList [JStr ''Try increasing budget'', JStr ''Reduce quantity'',
                     JStr ''Extend timeline''])]"

section \<open>The LangGraph negotiation service\<close>

text \<open>
  \<^verbatim>\<open>langgraph_negotiation_service.py\<close>. An offer is a dict read from the cache; the code
  reads its \<^verbatim>\<open>"total_price"\<close> entry with \<^verbatim>\<open>.get\<close>, so the entry is optional. Prices are
  exact reals.
\<close>

record lg_offer =
  lg_hospital_id :: string
  total_price :: "real option"

text \<open>
  The sort key \<^verbatim>\<open>x.get("total_price", float('inf'))\<close>. The pair is ordered
  lexicographically, \<open>False\<close> before \<open>True\<close>: every price is below the infinity that
  stands for a missing one, and two missing prices are equal.
\<close>

definition price_key :: "lg_offer \<Rightarrow> bool \<times> real" where
  "price_key x = (case total_price x of None \<Rightarrow> (True, 0) | Some p \<Rightarrow> (False, p))"

text \<open>
  What the language model does for \<^verbatim>\<open>_evaluate_offers\<close>: there is none
  (\<^verbatim>\<open>self.llm\<close> is \<^verbatim>\<open>None\<close>), or the \<^verbatim>\<open>try\<close> block raises, or it yields a ranking.
  The \<^verbatim>\<open>try\<close> block ends by logging the first entry of the ranking, so an empty
  ranking raises there and is replaced by the fallback as well.
  Python's \<^verbatim>\<open>sorted\<close> is a stable sort by the key; \<open>sort_key\<close> is one.
\<close>

datatype llm_evaluation = No_llm | Llm_fails | Llm_answers "lg_offer list"

record offer_evaluations =
  ranked_offers :: "lg_offer list"
  top_choice :: "lg_offer option"

definition evaluate_offers :: "llm_evaluation \<Rightarrow> lg_offer list \<Rightarrow> offer_evaluations" where
  "evaluate_offers llm offs =
     (if offs = [] then \<lparr>ranked_offers = [], top_choice = None\<rparr>
      else
        (case llm of
           No_llm \<Rightarrow>
             (let sorted_offers = sort_key price_key offs
              in \<lparr>ranked_offers = sorted_offers,
                  top_choice = (case sorted_offers of [] \<Rightarrow> None | x # xs \<Rightarrow> Some x)\<rparr>)
         | Llm_fails \<Rightarrow> \<lparr>ranked_offers = sort_key price_key offs, top_choice = None\<rparr>
         | Llm_answers ranking \<Rightarrow>
             (if ranking = [] then \<lparr>ranked_offers = sort_key price_key offs, top_choice = None\<rparr>
              else \<lparr>ranked_offers = ranking, top_choice = None\<rparr>)))"

text \<open>
  One round of \<^verbatim>\<open>_negotiate\<close>. Without a language model the price drops by 5 percent,
  not below the target. With one, the model proposes a counter offer or the \<^verbatim>\<open>try\<close>
  block raises; in that last case the round has no \<^verbatim>\<open>"their_response"\<close> entry.
\<close>

record round_data =
  round_num :: nat
  our_offer :: real
  their_response :: "real option"
  accepted :: bool

datatype llm_move = Move_fails | Move real

definition negotiation_step ::
  "(nat \<Rightarrow> llm_move) option \<Rightarrow> nat \<Rightarrow> real \<Rightarrow> real \<Rightarrow> round_data" where
  "negotiation_step llm n current_price target_price =
     (case llm of
        None \<Rightarrow>
          (let reduction = current_price * (5 / 100);
               new_price = max (current_price - reduction) target_price
           in \<lparr>round_num = n, our_offer = new_price, their_response = Some new_price,
               accepted = (n = 3 \<or> new_price \<le> target_price)\<rparr>)
      | Some f \<Rightarrow>
          (case f n of
             Move new_price \<Rightarrow>
               (let acc = (if new_price \<ge> target_price * (95 / 100) then True else n = 3)
                in \<lparr>round_num = n, our_offer = new_price,
                    their_response = Some (if acc then new_price else current_price * (98 / 100)),
                    accepted = acc\<rparr>)
           | Move_fails \<Rightarrow>
               \<lparr>round_num = n, our_offer = current_price * (95 / 100), their_response = None,
                accepted = (n = 3)\<rparr>))"

text \<open>
  The loop \<^verbatim>\<open>for round_num in range(1, 4)\<close>, run over the rounds still to come. Reading
  \<^verbatim>\<open>round_data["their_response"]\<close> raises when the entry is missing; an accepted round
  breaks out of the loop.
\<close>

fun negotiation_loop ::
  "(nat \<Rightarrow> llm_move) option \<Rightarrow> real \<Rightarrow> nat list \<Rightarrow> real \<Rightarrow> round_data list \<Rightarrow>
   exn + (round_data list \<times> real)" where
  "negotiation_loop llm target_price [] current_price rounds = Inr (rounds, current_price)"
| "negotiation_loop llm target_price (n # ns) current_price rounds =
     (let rd = negotiation_step llm n current_price target_price
      in case their_response rd of
           None \<Rightarrow> Inl (KeyError ''their_response'')
         | Some response \<Rightarrow>
             if accepted rd then Inr (rounds @ [rd], response)
             else negotiation_loop llm target_price ns response (rounds @ [rd]))"

record final_offer =
  top_offer :: lg_offer
  negotiated_price :: real
  original_price :: "real option"
  savings :: real
  negotiation_rounds :: nat

text \<open>
  \<^verbatim>\<open>_negotiate\<close>, given the \<^verbatim>\<open>"max_acceptable_price_per_unit"\<close> entry of the need
  analysis (read with \<^verbatim>\<open>.get(..., 0)\<close>), the quantity and the ranked offers. The result
  is the list of rounds and the best offer, or nothing when no offer was ranked.
\<close>

definition negotiate ::
  "(nat \<Rightarrow> llm_move) option \<Rightarrow> real option \<Rightarrow> int \<Rightarrow> lg_offer list \<Rightarrow>
   exn + (round_data list \<times> final_offer option)" where
  "negotiate llm max_acceptable_price_per_unit qty ranked =
     (case ranked of
        [] \<Rightarrow> Inr ([], None)
      | first # rest \<Rightarrow>
          (let current_price = (case total_price first of None \<Rightarrow> 0 | Some p \<Rightarrow> p);
               target_price =
                 (case max_acceptable_price_per_unit of None \<Rightarrow> 0 | Some m \<Rightarrow> m) * of_int qty
           in case negotiation_loop llm target_price [1, 2, 3] current_price [] of
                Inl e \<Rightarrow> Inl e
              | Inr (rounds, final_price) \<Rightarrow>
                  Inr (rounds,
                       Some \<lparr>top_offer = first,
                             negotiated_price = final_price,
                             original_price = total_price first,
                             savings = (case total_price first of None \<Rightarrow> 0 | Some p \<Rightarrow> p)
                                         - final_price,
                             negotiation_rounds = length rounds\<rparr>)))"

section \<open>Example runs\<close>

text \<open>
  Inputs for the concrete runs evaluated below: the demo registry with a fourth hospital
  (so that a negotiation has three participants), judgments as the prompts ask for them,
  and oracles that answer with them.
\<close>

definition four_agent_service :: service where
  "four_agent_service =
     \<lparr>agents = agents demo_service @
        [(''HOSP_D'', HospitalAgent ''HOSP_D'' ''District General Hospital''
                        (Some ''Government''))]\<rparr>"

definition helpful_judgment :: "real \<Rightarrow> real \<Rightarrow> json" where
  "helpful_judgment qty price =
     JObj [(''can_help'', JBool True),
           (''quantity_available'', JNum qty),
           (''proposed_price_per_unit'', JNum price),
           (''conditions'', JList [JStr ''return within 7 days'']),
           (''reasoning'', JStr ''spare capacity''),
           (''confidence'', JNum 85)]"

definition declining_judgment :: json where
  "declining_judgment =
     JObj [(''can_help'', JBool False),
           (''reasoning'', JStr ''no spare capacity''),
           (''confidence'', JNum 90)]"

definition adjusting_judgment :: "real \<Rightarrow> json" where
  "adjusting_judgment price =
     JObj [(''adjust_offer'', JBool True),
           (''new_price_per_unit'', JNum price),
           (''new_conditions'', JList [JStr ''pay on delivery'']),
           (''strategy'', JStr ''undercut the competing offer'')]"

definition accepting_decision :: json where
  "accepting_decision =
     JObj [(''success'', JBool True),
           (''selected_offers'', JList []),
           (''total_cost'', JNum 15000),
           (''reasoning'', JStr ''lowest cost'')]"

text \<open>
  HOSP\_B and HOSP\_D (and HOSP\_A) offer help, HOSP\_C declines; HOSP\_B asks for an
  adjustment of its offer, the negotiation exchange of every other agent times out.
\<close>

definition example_oracle :: oracle_replies where
  "example_oracle =
     \<lparr>analyze_reply = (\<lambda>hid. if hid = ''HOSP_C'' then Parsed declining_judgment
                              else if hid = ''HOSP_B'' then Parsed (helpful_judgment 3 5000)
                              else Parsed (helpful_judgment 5 4500)),
      negotiate_reply = (\<lambda>hid. if hid = ''HOSP_B'' then Parsed (adjusting_judgment 4000)
                                else Raises (OtherError ''Request timed out.'')),
      decision_reply = Parsed accepting_decision\<rparr>"

text \<open>Every agent offers help, and every agent asks for an adjustment to 4000 per unit.\<close>

definition eager_oracle :: oracle_replies where
  "eager_oracle =
     \<lparr>analyze_reply = (\<lambda>hid. Parsed (helpful_judgment 5 4500)),
      negotiate_reply = (\<lambda>hid. Parsed (adjusting_judgment 4000)),
      decision_reply = Parsed accepting_decision\<rparr>"

text \<open>Every agent declines: HOSP\_B by its judgment, the others because the exchange fails.\<close>

definition declining_oracle :: oracle_replies where
  "declining_oracle =
     \<lparr>analyze_reply = (\<lambda>hid. if hid = ''HOSP_B'' then Parsed declining_judgment
                              else Raises (JSONDecodeError ''Expecting value'')),
      negotiate_reply = (\<lambda>hid. Raises (OtherError ''Request timed out.'')),
      decision_reply = Parsed accepting_decision\<rparr>"

text \<open>
  Every agent answers with valid JSON that says it can help and says nothing else: the
  quantity and the price are missing.
\<close>

definition terse_oracle :: oracle_replies where
  "terse_oracle =
     \<lparr>analyze_reply = (\<lambda>hid. Parsed (JObj [(''can_help'', JBool True)])),
      negotiate_reply = (\<lambda>hid. Parsed (JObj [(''adjust_offer'', JBool False)])),
      decision_reply = Parsed accepting_decision\<rparr>"

section \<open>Properties of the agent\<close>

lemma starts_with_iff: "starts_with p s = (\<exists>post. s = p @ post)"
  by (induction p s rule: starts_with.induct) auto

text \<open>\<open>str_in\<close> is the substring test: some text before, the needle, some text after.\<close>

lemma str_in_iff: "str_in sub s = (\<exists>pre post. s = pre @ sub @ post)"
proof (induction s)
  case Nil
  then show ?case by auto
next
  case (Cons c cs)
  show ?case
  proof
    assume "str_in sub (c # cs)"
    then consider "starts_with sub (c # cs)" | "str_in sub cs" by auto
    then show "\<exists>pre post. c # cs = pre @ sub @ post"
    proof cases
      case 1
      then obtain post where "c # cs = sub @ post" by (auto simp: starts_with_iff)
      then have "c # cs = [] @ sub @ post" by simp
      then show ?thesis by blast
    next
      case 2
      then obtain pre post where "cs = pre @ sub @ post" using Cons.IH by auto
      then have "c # cs = (c # pre) @ sub @ post" by simp
      then show ?thesis by blast
    qed
  next
    assume "\<exists>pre post. c # cs = pre @ sub @ post"
    then obtain pre post where eq: "c # cs = pre @ sub @ post" by blast
    show "str_in sub (c # cs)"
    proof (cases pre)
      case Nil
      with eq have "starts_with sub (c # cs)" by (auto simp: starts_with_iff)
      then show ?thesis by simp
    next
      case (Cons a pre')
      with eq have "cs = pre' @ sub @ post" by simp
      then have "str_in sub cs" using Cons.IH by blast
      then show ?thesis by simp
    qed
  qed
qed

text \<open>
  C10. The personality classifier always returns one of the three personalities:
  \<open>academic_collaborative\<close> exactly when the lower-cased hospital name contains
  \<open>teaching\<close>; otherwise \<open>business_oriented\<close> exactly when the lower-cased hospital type
  (the empty string when absent) contains \<open>private\<close>; otherwise \<open>community_focused\<close>.
  The demo hospital named Fortis Medical Centre, of type Private Teaching Hospital, is
  therefore \<open>business_oriented\<close>: the word Teaching is in its type, not in its name.
\<close>

theorem C10_personality_classifier:
  "generate_personality name ty
     \<in> {''academic_collaborative'', ''business_oriented'', ''community_focused''}
   \<and> (generate_personality name ty = ''academic_collaborative'')
       = (\<exists>pre post. lower name = pre @ ''teaching'' @ post)
   \<and> (generate_personality name ty = ''business_oriented'')
       = ((\<nexists>pre post. lower name = pre @ ''teaching'' @ post)
          \<and> (\<exists>pre post. lower (case ty of None \<Rightarrow> [] | Some t \<Rightarrow> t) = pre @ ''private'' @ post))
   \<and> (generate_personality name ty = ''community_focused'')
       = ((\<nexists>pre post. lower name = pre @ ''teaching'' @ post)
          \<and> (\<nexists>pre post. lower (case ty of None \<Rightarrow> [] | Some t \<Rightarrow> t) = pre @ ''private'' @ post))
   \<and> map (\<lambda>(hid, a). (hid, personality a)) (agents demo_service)
       = [(''HOSP_A'', ''business_oriented''), (''HOSP_B'', ''business_oriented''),
          (''HOSP_C'', ''business_oriented'')]"
proof -
  have demo: "map (\<lambda>(hid, a). (hid, personality a)) (agents demo_service)
       = [(''HOSP_A'', ''business_oriented''), (''HOSP_B'', ''business_oriented''),
          (''HOSP_C'', ''business_oriented'')]"
    by (simp add: demo_service_def HospitalAgent_def generate_personality_def lower_def
          lower_char_def)
  have general: "generate_personality name ty
     \<in> {''academic_collaborative'', ''business_oriented'', ''community_focused''}
   \<and> (generate_personality name ty = ''academic_collaborative'')
       = str_in ''teaching'' (lower name)
   \<and> (generate_personality name ty = ''business_oriented'')
       = (\<not> str_in ''teaching'' (lower name)
          \<and> str_in ''private'' (lower (case ty of None \<Rightarrow> [] | Some t \<Rightarrow> t)))
   \<and> (generate_personality name ty = ''community_focused'')
       = (\<not> str_in ''teaching'' (lower name)
          \<and> \<not> str_in ''private'' (lower (case ty of None \<Rightarrow> [] | Some t \<Rightarrow> t)))"
    by (simp add: generate_personality_def)
  show ?thesis
    using general demo unfolding str_in_iff by blast
qed


section \<open>Properties of the coordination service\<close>

lemmas st_defs = yield_def set_status_def append_message_def append_offer_def

lemma collect_one_frame:
  "collect_one ags an rt hid st = (st', r) \<Longrightarrow>
     status_log st' = status_log st \<and> status (session st') = status (session st)
     \<and> participant_hospitals (session st') = participant_hospitals (session st)
     \<and> final_agreement (session st') = final_agreement (session st)"
  unfolding collect_one_def
  by (auto simp: Let_def st_defs split: option.splits sum.splits if_splits)

lemma collect_one_events:
  "collect_one ags an rt hid st = (st', r) \<Longrightarrow>
     \<exists>es. yielded st' = yielded st @ es \<and> list_all (\<lambda>e. event_phase e = 2) es"
  unfolding collect_one_def
  by (auto simp: Let_def st_defs split: option.splits sum.splits if_splits)

lemma collect_one_tags:
  "collect_one ags an rt hid st = (st', None) \<Longrightarrow>
     map event_tag (yielded st') = map event_tag (yielded st) @
       [(''agent_analyzing'', Some (agent_name ags hid)),
        (if judged_helpful (an hid) then ''offer_received'' else ''offer_declined'',
         Some (agent_name ags hid))]"
  unfolding collect_one_def
  by (cases "an hid")
     (auto simp: Let_def st_defs event_tag_def agent_name_def judged_helpful_def analyze_request_def
           split: option.splits sum.splits if_splits)


lemma collect_one_offers:
  "collect_one ags an rt hid st = (st', r) \<Longrightarrow>
     \<exists>new. offers (session st') = offers (session st) @ new"
  unfolding collect_one_def
  by (auto simp: Let_def st_defs split: option.splits sum.splits if_splits)

lemma collect_responses_frame:
  "collect_responses ags an rt hids st = (st', r) \<Longrightarrow>
     status_log st' = status_log st \<and> status (session st') = status (session st)
     \<and> participant_hospitals (session st') = participant_hospitals (session st)
     \<and> final_agreement (session st') = final_agreement (session st)"
proof (induction hids arbitrary: st)
  case Nil
  then show ?case by simp
next
  case (Cons hid hids)
  obtain st1 r1 where one: "collect_one ags an rt hid st = (st1, r1)" by (cases "collect_one ags an rt hid st")
  note f = collect_one_frame [OF one]
  show ?case
  proof (cases r1)
    case None
    with Cons.prems one have "collect_responses ags an rt hids st1 = (st', r)" by simp
    from Cons.IH [OF this] f show ?thesis by simp
  next
    case (Some e)
    with Cons.prems one have "st' = st1" by simp
    with f show ?thesis by simp
  qed
qed

lemma collect_responses_events:
  "collect_responses ags an rt hids st = (st', r) \<Longrightarrow>
     \<exists>es. yielded st' = yielded st @ es \<and> list_all (\<lambda>e. event_phase e = 2) es"
proof (induction hids arbitrary: st)
  case Nil
  then show ?case by simp
next
  case (Cons hid hids)
  obtain st1 r1 where one: "collect_one ags an rt hid st = (st1, r1)" by (cases "collect_one ags an rt hid st")
  from collect_one_events [OF one] obtain es1 where
    es1: "yielded st1 = yielded st @ es1" "list_all (\<lambda>e. event_phase e = 2) es1" by blast
  show ?case
  proof (cases r1)
    case None
    with Cons.prems one have "collect_responses ags an rt hids st1 = (st', r)" by simp
    from Cons.IH [OF this] obtain es2 where
      "yielded st' = yielded st1 @ es2" "list_all (\<lambda>e. event_phase e = 2) es2" by blast
    with es1 have "yielded st' = yielded st @ (es1 @ es2) \<and> list_all (\<lambda>e. event_phase e = 2) (es1 @ es2)"
      by simp
    then show ?thesis by blast
  next
    case (Some e)
    with Cons.prems one have "st' = st1" by simp
    with es1 show ?thesis by blast
  qed
qed

lemma collect_responses_tags:
  "collect_responses ags an rt hids st = (st', None) \<Longrightarrow>
     map event_tag (yielded st') = map event_tag (yielded st) @
       concat (map (\<lambda>hid.
         [(''agent_analyzing'', Some (agent_name ags hid)),
          (if judged_helpful (an hid) then ''offer_received'' else ''offer_declined'',
           Some (agent_name ags hid))]) hids)"
proof (induction hids arbitrary: st)
  case Nil
  then show ?case by simp
next
  case (Cons hid hids)
  obtain st1 r1 where one: "collect_one ags an rt hid st = (st1, r1)" by (cases "collect_one ags an rt hid st")
  show ?case
  proof (cases r1)
    case None
    with Cons.prems one have rest: "collect_responses ags an rt hids st1 = (st', None)" by simp
    from one None have "collect_one ags an rt hid st = (st1, None)" by simp
    from collect_one_tags [OF this] Cons.IH [OF rest] show ?thesis by simp
  next
    case (Some e)
    with Cons.prems one show ?thesis by simp
  qed
qed

lemma negotiate_one_frame:
  "negotiate_one ags ng ofr st = (st', r) \<Longrightarrow>
     session st' = session st \<and> status_log st' = status_log st"
  unfolding negotiate_one_def
  by (auto simp: st_defs split: option.splits sum.splits if_splits)

lemma negotiate_one_events:
  "negotiate_one ags ng ofr st = (st', r) \<Longrightarrow>
     \<exists>es. yielded st' = yielded st @ es \<and> list_all (\<lambda>e. event_phase e = 3) es"
  unfolding negotiate_one_def
  by (auto simp: st_defs split: option.splits sum.splits if_splits)

lemma negotiate_one_tags:
  "negotiate_one ags ng ofr st = (st', None) \<Longrightarrow>
     map event_tag (yielded st') = map event_tag (yielded st) @
       (if wants_adjustment (ng (offer_hospital_id ofr))
        then [(''offer_adjusted'', Some (agent_name ags (offer_hospital_id ofr)))] else [])"
  unfolding negotiate_one_def
  by (cases "ng (offer_hospital_id ofr)")
     (auto simp: st_defs event_tag_def agent_name_def wants_adjustment_def negotiate_offer_def
           split: option.splits sum.splits if_splits)

lemma negotiate_all_frame:
  "negotiate_all ags ng ofrs st = (st', r) \<Longrightarrow>
     session st' = session st \<and> status_log st' = status_log st"
proof (induction ofrs arbitrary: st)
  case Nil
  then show ?case by simp
next
  case (Cons ofr ofrs)
  obtain st1 r1 where one: "negotiate_one ags ng ofr st = (st1, r1)" by (cases "negotiate_one ags ng ofr st")
  note f = negotiate_one_frame [OF one]
  show ?case
  proof (cases r1)
    case None
    with Cons.prems one have "negotiate_all ags ng ofrs st1 = (st', r)" by simp
    from Cons.IH [OF this] f show ?thesis by simp
  next
    case (Some e)
    with Cons.prems one have "st' = st1" by simp
    with f show ?thesis by simp
  qed
qed

lemma negotiate_all_events:
  "negotiate_all ags ng ofrs st = (st', r) \<Longrightarrow>
     \<exists>es. yielded st' = yielded st @ es \<and> list_all (\<lambda>e. event_phase e = 3) es"
proof (induction ofrs arbitrary: st)
  case Nil
  then show ?case by simp
next
  case (Cons ofr ofrs)
  obtain st1 r1 where one: "negotiate_one ags ng ofr st = (st1, r1)" by (cases "negotiate_one ags ng ofr st")
  from negotiate_one_events [OF one] obtain es1 where
    es1: "yielded st1 = yielded st @ es1" "list_all (\<lambda>e. event_phase e = 3) es1" by blast
  show ?case
  proof (cases r1)
    case None
    with Cons.prems one have "negotiate_all ags ng ofrs st1 = (st', r)" by simp
    from Cons.IH [OF this] obtain es2 where
      "yielded st' = yielded st1 @ es2" "list_all (\<lambda>e. event_phase e = 3) es2" by blast
    with es1 have "yielded st' = yielded st @ (es1 @ es2) \<and> list_all (\<lambda>e. event_phase e = 3) (es1 @ es2)"
      by simp
    then show ?thesis by blast
  next
    case (Some e)
    with Cons.prems one have "st' = st1" by simp
    with es1 show ?thesis by blast
  qed
qed

lemma negotiate_all_tags:
  "negotiate_all ags ng ofrs st = (st', None) \<Longrightarrow>
     map event_tag (yielded st') = map event_tag (yielded st) @
       map (\<lambda>ofr. (''offer_adjusted'', Some (agent_name ags (offer_hospital_id ofr))))
         (filter (\<lambda>ofr. wants_adjustment (ng (offer_hospital_id ofr))) ofrs)"
proof (induction ofrs arbitrary: st)
  case Nil
  then show ?case by simp
next
  case (Cons ofr ofrs)
  obtain st1 r1 where one: "negotiate_one ags ng ofr st = (st1, r1)" by (cases "negotiate_one ags ng ofr st")
  show ?case
  proof (cases r1)
    case None
    with Cons.prems one have rest: "negotiate_all ags ng ofrs st1 = (st', None)" by simp
    from one None have "negotiate_one ags ng ofr st = (st1, None)" by simp
    from negotiate_one_tags [OF this] Cons.IH [OF rest] show ?thesis by simp
  next
    case (Some e)
    with Cons.prems one show ?thesis by simp
  qed
qed


lemma collect_one_ids:
  "collect_one ags an rt hid st = (st', None) \<Longrightarrow>
     map offer_hospital_id (offers (session st')) =
       map offer_hospital_id (offers (session st)) @ (if judged_helpful (an hid) then [hid] else [])"
  unfolding collect_one_def
  by (cases "an hid")
     (auto simp: Let_def st_defs judged_helpful_def analyze_request_def
           split: option.splits sum.splits if_splits)

lemma collect_responses_ids:
  "collect_responses ags an rt hids st = (st', None) \<Longrightarrow>
     map offer_hospital_id (offers (session st')) =
       map offer_hospital_id (offers (session st)) @ filter (\<lambda>hid. judged_helpful (an hid)) hids"
proof (induction hids arbitrary: st)
  case Nil
  then show ?case by simp
next
  case (Cons hid hids)
  obtain st1 r1 where one: "collect_one ags an rt hid st = (st1, r1)" by (cases "collect_one ags an rt hid st")
  show ?case
  proof (cases r1)
    case None
    with Cons.prems one have rest: "collect_responses ags an rt hids st1 = (st', None)" by simp
    from one None have "collect_one ags an rt hid st = (st1, None)" by simp
    from collect_one_ids [OF this] Cons.IH [OF rest] show ?thesis by simp
  next
    case (Some e)
    with Cons.prems one show ?thesis by simp
  qed
qed

lemma open_session_facts:
  "map event_tag (yielded (open_session svc ini a rt q u d b)) =
     [(''negotiation_initiated'', None), (''broadcasting_request'', None)]"
  "map event_phase (yielded (open_session svc ini a rt q u d b)) = [0, 1]"
  "status_log (open_session svc ini a rt q u d b) = [Initiated, Broadcasting, Collecting_responses]"
  "status (session (open_session svc ini a rt q u d b)) = Collecting_responses"
  "offers (session (open_session svc ini a rt q u d b)) = []"
  "final_agreement (session (open_session svc ini a rt q u d b)) = None"
  "participant_hospitals (session (open_session svc ini a rt q u d b)) =
     filter (\<lambda>hid. hid \<noteq> ini) (map fst (agents svc))"
  by (simp_all add: open_session_def Let_def st_defs event_tag_def)

lemma negotiation_round_frame:
  assumes "negotiation_round ags ng st = (st', r)"
  shows "offers (session st') = offers (session st)"
    and "participant_hospitals (session st') = participant_hospitals (session st)"
    and "final_agreement (session st') = final_agreement (session st)"
    and "messages (session st') = messages (session st)"
    and "status_log st' = status_log st @ (if 1 < length (offers (session st)) then [Negotiating] else [])"
    and "status (session st') = (if 1 < length (offers (session st)) then Negotiating else status (session st))"
proof -
  show "offers (session st') = offers (session st)"
    and "participant_hospitals (session st') = participant_hospitals (session st)"
    and "final_agreement (session st') = final_agreement (session st)"
    and "messages (session st') = messages (session st)"
    and "status_log st' = status_log st @ (if 1 < length (offers (session st)) then [Negotiating] else [])"
    and "status (session st') = (if 1 < length (offers (session st)) then Negotiating else status (session st))"
    using assms unfolding negotiation_round_def
    by (auto simp: Let_def st_defs dest!: negotiate_all_frame split: if_splits)
qed

lemma negotiation_round_events:
  assumes "negotiation_round ags ng st = (st', r)"
  shows "\<exists>es. yielded st' = yielded st @ es \<and> list_all (\<lambda>e. event_phase e = 3) es"
proof (cases "1 < length (offers (session st))")
  case True
  with assms have "negotiate_all ags ng (offers (session st))
      (yield (Negotiation_round_started (length (offers (session st)))) (set_status Negotiating st)) = (st', r)"
    by (simp add: negotiation_round_def Let_def st_defs)
  from negotiate_all_events [OF this] obtain es where
    "yielded st' = yielded st @ (Negotiation_round_started (length (offers (session st))) # es)"
    "list_all (\<lambda>e. event_phase e = 3) es"
    by (auto simp: st_defs)
  then have "yielded st' = yielded st @ (Negotiation_round_started (length (offers (session st))) # es)
     \<and> list_all (\<lambda>e. event_phase e = 3) (Negotiation_round_started (length (offers (session st))) # es)"
    by simp
  then show ?thesis by blast
next
  case False
  with assms show ?thesis by (simp add: negotiation_round_def)
qed

lemma negotiation_round_tags:
  assumes "negotiation_round ags ng st = (st', None)"
  shows "map event_tag (yielded st') = map event_tag (yielded st) @
     (if 1 < length (offers (session st)) then
        (''negotiation_round_started'', None) #
        map (\<lambda>ofr. (''offer_adjusted'', Some (agent_name ags (offer_hospital_id ofr))))
          (filter (\<lambda>ofr. wants_adjustment (ng (offer_hospital_id ofr))) (offers (session st)))
      else [])"
proof (cases "1 < length (offers (session st))")
  case True
  with assms have "negotiate_all ags ng (offers (session st))
      (yield (Negotiation_round_started (length (offers (session st)))) (set_status Negotiating st)) = (st', None)"
    by (simp add: negotiation_round_def Let_def st_defs)
  from negotiate_all_tags [OF this] True show ?thesis
    by (simp add: st_defs event_tag_def)
next
  case False
  with assms show ?thesis by (simp add: negotiation_round_def)
qed

lemma make_decision_total: "\<exists>dec. make_decision reply s = Inr dec"
  by (cases reply) (simp_all add: make_decision_def)

lemma decide_result:
  "\<exists>dec. make_decision reply (session st\<lparr>status := Deciding\<rparr>) = Inr dec
     \<and> decide reply st =
         (st\<lparr>session := (session st)\<lparr>status := Completed, final_agreement := Some dec\<rparr>,
             yielded := yielded st @ [Making_decision, Negotiation_completed dec],
             status_log := status_log st @ [Deciding, Completed]\<rparr>, None)"
proof -
  obtain dec where d: "make_decision reply (session st\<lparr>status := Deciding\<rparr>) = Inr dec"
    using make_decision_total by blast
  then have "decide reply st =
         (st\<lparr>session := (session st)\<lparr>status := Completed, final_agreement := Some dec\<rparr>,
             yielded := yielded st @ [Making_decision, Negotiation_completed dec],
             status_log := status_log st @ [Deciding, Completed]\<rparr>, None)"
    by (simp add: decide_def Let_def st_defs)
  with d show ?thesis by blast
qed

lemma make_decision_offers: "make_decision reply (s\<lparr>status := x\<rparr>) = make_decision reply s"
  by (simp add: make_decision_def)

lemma run_cases [case_names unknown collect_raises negotiation_raises returns]:
  assumes "map_of (agents svc) ini = None \<Longrightarrow>
             initiate_negotiation svc orc ini rt q u d b = Not_started (KeyError ini) \<Longrightarrow> P"
    and "\<And>a st5 e. map_of (agents svc) ini = Some a \<Longrightarrow>
           collect_responses (agents svc) (analyze_reply orc) rt
             (filter (\<lambda>hid. hid \<noteq> ini) (map fst (agents svc)))
             (open_session svc ini a rt q u d b) = (st5, Some e) \<Longrightarrow>
           initiate_negotiation svc orc ini rt q u d b = Run st5 (Some e) \<Longrightarrow> P"
    and "\<And>a st5 st6 e. map_of (agents svc) ini = Some a \<Longrightarrow>
           collect_responses (agents svc) (analyze_reply orc) rt
             (filter (\<lambda>hid. hid \<noteq> ini) (map fst (agents svc)))
             (open_session svc ini a rt q u d b) = (st5, None) \<Longrightarrow>
           negotiation_round (agents svc) (negotiate_reply orc) st5 = (st6, Some e) \<Longrightarrow>
           initiate_negotiation svc orc ini rt q u d b = Run st6 (Some e) \<Longrightarrow> P"
    and "\<And>a st5 st6 st7. map_of (agents svc) ini = Some a \<Longrightarrow>
           collect_responses (agents svc) (analyze_reply orc) rt
             (filter (\<lambda>hid. hid \<noteq> ini) (map fst (agents svc)))
             (open_session svc ini a rt q u d b) = (st5, None) \<Longrightarrow>
           negotiation_round (agents svc) (negotiate_reply orc) st5 = (st6, None) \<Longrightarrow>
           decide (decision_reply orc) st6 = (st7, None) \<Longrightarrow>
           initiate_negotiation svc orc ini rt q u d b = Run st7 None \<Longrightarrow> P"
  shows P
proof (cases "map_of (agents svc) ini")
  case None
  then have "initiate_negotiation svc orc ini rt q u d b = Not_started (KeyError ini)"
    by (simp add: initiate_negotiation_def)
  with None assms(1) show ?thesis by blast
next
  case (Some a)
  let ?st4 = "open_session svc ini a rt q u d b"
  let ?ps = "filter (\<lambda>hid. hid \<noteq> ini) (map fst (agents svc))"
  obtain st5 r5 where c: "collect_responses (agents svc) (analyze_reply orc) rt ?ps ?st4 = (st5, r5)"
    by (cases "collect_responses (agents svc) (analyze_reply orc) rt ?ps ?st4")
  show ?thesis
  proof (cases r5)
    case (Some e)
    with c \<open>map_of (agents svc) ini = Some a\<close>
    have "initiate_negotiation svc orc ini rt q u d b = Run st5 (Some e)"
      by (simp add: initiate_negotiation_def Let_def open_session_facts)
    with assms(2) Some c \<open>map_of (agents svc) ini = Some a\<close> show ?thesis by blast
  next
    case None
    obtain st6 r6 where n: "negotiation_round (agents svc) (negotiate_reply orc) st5 = (st6, r6)"
      by (cases "negotiation_round (agents svc) (negotiate_reply orc) st5")
    show ?thesis
    proof (cases r6)
      case (Some e)
      with c n None \<open>map_of (agents svc) ini = Some a\<close>
      have "initiate_negotiation svc orc ini rt q u d b = Run st6 (Some e)"
        by (simp add: initiate_negotiation_def Let_def open_session_facts)
      with assms(3) Some c n None \<open>map_of (agents svc) ini = Some a\<close> show ?thesis by blast
    next
      case None
      obtain st7 where dd: "decide (decision_reply orc) st6 = (st7, None)"
        using decide_result [of "decision_reply orc" st6] by blast
      with c n None \<open>r5 = None\<close> \<open>map_of (agents svc) ini = Some a\<close>
      have "initiate_negotiation svc orc ini rt q u d b = Run st7 None"
        by (simp add: initiate_negotiation_def Let_def open_session_facts)
      with assms(4) dd c n None \<open>r5 = None\<close> \<open>map_of (agents svc) ini = Some a\<close> show ?thesis by blast
    qed
  qed
qed

lemma phase_const:
  "list_all (\<lambda>e. event_phase e = k) es \<Longrightarrow> map event_phase es = replicate (length es) k"
  by (induction es) auto

lemma decide_facts:
  assumes "decide reply st = (st', r)"
  shows "\<exists>dec. yielded st' = yielded st @ [Making_decision, Negotiation_completed dec]
           \<and> final_agreement (session st') = Some dec
           \<and> make_decision reply (session st) = Inr dec"
    and "status_log st' = status_log st @ [Deciding, Completed]"
    and "status (session st') = Completed"
    and "offers (session st') = offers (session st)"
    and "participant_hospitals (session st') = participant_hospitals (session st)"
    and "r = None"
  using assms decide_result [of reply st] by (auto simp: make_decision_offers)

text \<open>
  C1. Events are yielded in phase order in every run, also in one that raises. A run that
  returns yields exactly: \<open>negotiation_initiated\<close>, \<open>broadcasting_request\<close>; then, for
  each participant in the order of the registry, \<open>agent_analyzing\<close> followed by
  \<open>offer_received\<close> or \<open>offer_declined\<close> for that agent; then, when two or more offers
  were collected, \<open>negotiation_round_started\<close> and one \<open>offer_adjusted\<close> for each offer
  whose agent wants an adjustment, in the order of the offers; then \<open>making_decision\<close>
  and \<open>negotiation_completed\<close>.
\<close>

theorem C1_event_order:
  "sorted (map event_phase (emitted (initiate_negotiation svc orc ini rt q u d b)))
   \<and> (raised (initiate_negotiation svc orc ini rt q u d b) = None \<longrightarrow>
        map event_tag (emitted (initiate_negotiation svc orc ini rt q u d b)) =
          [(''negotiation_initiated'', None), (''broadcasting_request'', None)]
          @ concat (map (\<lambda>hid.
               [(''agent_analyzing'', Some (agent_name (agents svc) hid)),
                (if judged_helpful (analyze_reply orc hid) then ''offer_received''
                 else ''offer_declined'', Some (agent_name (agents svc) hid))])
               (filter (\<lambda>hid. hid \<noteq> ini) (map fst (agents svc))))
          @ (if 1 < length (filter (\<lambda>hid. judged_helpful (analyze_reply orc hid))
                             (filter (\<lambda>hid. hid \<noteq> ini) (map fst (agents svc))))
             then (''negotiation_round_started'', None) #
                  map (\<lambda>hid. (''offer_adjusted'', Some (agent_name (agents svc) hid)))
                    (filter (\<lambda>hid. wants_adjustment (negotiate_reply orc hid))
                       (filter (\<lambda>hid. judged_helpful (analyze_reply orc hid))
                          (filter (\<lambda>hid. hid \<noteq> ini) (map fst (agents svc)))))
             else [])
          @ [(''making_decision'', None), (''negotiation_completed'', None)])"
proof (cases rule: run_cases [of svc ini orc rt q u d b])
  case unknown
  then show ?thesis by simp
next
  case (collect_raises a st5 e)
  from collect_responses_events [OF collect_raises(2)] obtain es where
    "yielded st5 = yielded (open_session svc ini a rt q u d b) @ es"
    "list_all (\<lambda>e. event_phase e = 2) es" by blast
  then have "map event_phase (yielded st5) = [0, 1] @ replicate (length es) 2"
    by (simp add: open_session_facts phase_const)
  then have "sorted (map event_phase (yielded st5))"
    by (auto simp: sorted_append)
  with collect_raises(3) show ?thesis by simp
next
  case (negotiation_raises a st5 st6 e)
  from collect_responses_events [OF negotiation_raises(2)] obtain es where
    es: "yielded st5 = yielded (open_session svc ini a rt q u d b) @ es"
    "list_all (\<lambda>e. event_phase e = 2) es" by blast
  from negotiation_round_events [OF negotiation_raises(3)] obtain es' where
    es': "yielded st6 = yielded st5 @ es'" "list_all (\<lambda>e. event_phase e = 3) es'" by blast
  from es es' have "map event_phase (yielded st6) =
      [0, 1] @ replicate (length es) 2 @ replicate (length es') 3"
    by (simp add: open_session_facts phase_const)
  then have "sorted (map event_phase (yielded st6))"
    by (auto simp: sorted_append)
  with negotiation_raises(4) show ?thesis by simp
next
  case (returns a st5 st6 st7)
  let ?ps = "filter (\<lambda>hid. hid \<noteq> ini) (map fst (agents svc))"
  from collect_responses_events [OF returns(2)] obtain es where
    es: "yielded st5 = yielded (open_session svc ini a rt q u d b) @ es"
    "list_all (\<lambda>e. event_phase e = 2) es" by blast
  from negotiation_round_events [OF returns(3)] obtain es' where
    es': "yielded st6 = yielded st5 @ es'" "list_all (\<lambda>e. event_phase e = 3) es'" by blast
  from decide_facts(1) [OF returns(4)] obtain dec where
    dec: "yielded st7 = yielded st6 @ [Making_decision, Negotiation_completed dec]" by blast
  from es es' dec have "map event_phase (yielded st7) =
      [0, 1] @ replicate (length es) 2 @ replicate (length es') 3 @ [4, 5]"
    by (simp add: open_session_facts phase_const)
  then have srt: "sorted (map event_phase (yielded st7))"
    by (auto simp: sorted_append)
  have ids: "map offer_hospital_id (offers (session st5)) =
      filter (\<lambda>hid. judged_helpful (analyze_reply orc hid)) ?ps"
    using collect_responses_ids [OF returns(2)] by (simp add: open_session_facts)
  have len: "length (offers (session st5)) =
      length (filter (\<lambda>hid. judged_helpful (analyze_reply orc hid)) ?ps)"
    using arg_cong [OF ids, of length] by simp
  have adj: "map (\<lambda>ofr. (''offer_adjusted'', Some (agent_name (agents svc) (offer_hospital_id ofr))))
          (filter (\<lambda>ofr. wants_adjustment (negotiate_reply orc (offer_hospital_id ofr)))
             (offers (session st5))) =
        map (\<lambda>hid. (''offer_adjusted'', Some (agent_name (agents svc) hid)))
          (filter (\<lambda>hid. wants_adjustment (negotiate_reply orc hid))
             (map offer_hospital_id (offers (session st5))))"
    by (simp add: filter_map comp_def)
  have t5: "map event_tag (yielded st5) =
      [(''negotiation_initiated'', None), (''broadcasting_request'', None)]
      @ concat (map (\<lambda>hid.
               [(''agent_analyzing'', Some (agent_name (agents svc) hid)),
                (if judged_helpful (analyze_reply orc hid) then ''offer_received''
                 else ''offer_declined'', Some (agent_name (agents svc) hid))]) ?ps)"
    using collect_responses_tags [OF returns(2)] by (simp add: open_session_facts)
  have t6: "map event_tag (yielded st6) = map event_tag (yielded st5) @
     (if 1 < length (filter (\<lambda>hid. judged_helpful (analyze_reply orc hid)) ?ps) then
        (''negotiation_round_started'', None) #
        map (\<lambda>hid. (''offer_adjusted'', Some (agent_name (agents svc) hid)))
          (filter (\<lambda>hid. wants_adjustment (negotiate_reply orc hid))
             (filter (\<lambda>hid. judged_helpful (analyze_reply orc hid)) ?ps))
      else [])"
    using negotiation_round_tags [OF returns(3)] unfolding adj len ids by simp
  have t7: "map event_tag (yielded st7) = map event_tag (yielded st6) @
      [(''making_decision'', None), (''negotiation_completed'', None)]"
    using dec by (simp add: event_tag_def)
  from srt t5 t6 t7 returns(5) show ?thesis by simp
qed

lemmas run_defs = initiate_negotiation_def open_session_def collect_one_def negotiate_one_def
  negotiation_round_def decide_def make_decision_def analyze_request_def negotiate_offer_def
  st_defs Let_def

lemmas example_defs = demo_service_def four_agent_service_def HospitalAgent_def
  helpful_judgment_def declining_judgment_def adjusting_judgment_def

text \<open>
  A run with three participants: HOSP\_A asks, HOSP\_B and HOSP\_D offer, HOSP\_C declines,
  and HOSP\_B adjusts.
\<close>

theorem C1_event_order_witness:
  "raised (initiate_negotiation four_agent_service example_oracle ''HOSP_A'' ''ventilators'' 8
             ''high'' 3 500000) = None
   \<and> map event_tag (emitted (initiate_negotiation four_agent_service example_oracle ''HOSP_A''
                               ''ventilators'' 8 ''high'' 3 500000)) =
       [(''negotiation_initiated'', None),
        (''broadcasting_request'', None),
        (''agent_analyzing'', Some ''Max Super Specialty Hospital''),
        (''offer_received'', Some ''Max Super Specialty Hospital''),
        (''agent_analyzing'', Some ''Fortis Medical Centre''),
        (''offer_declined'', Some ''Fortis Medical Centre''),
        (''agent_analyzing'', Some ''District General Hospital''),
        (''offer_received'', Some ''District General Hospital''),
        (''negotiation_round_started'', None),
        (''offer_adjusted'', Some ''Max Super Specialty Hospital''),
        (''making_decision'', None),
        (''negotiation_completed'', None)]"
proof -
  have ok: "raised (initiate_negotiation four_agent_service example_oracle ''HOSP_A''
                      ''ventilators'' 8 ''high'' 3 500000) = None"
    by (simp add: run_defs example_defs example_oracle_def)
  show ?thesis
    using ok C1_event_order [of four_agent_service example_oracle "''HOSP_A''" "''ventilators''"
                                8 "''high''" 3 500000]
    by (simp add: example_defs example_oracle_def agent_name_def judged_helpful_def
          wants_adjustment_def)
qed

lemma status_trace_cases:
  "status_trace (initiate_negotiation svc orc ini rt q u d b)
     \<in> {[],
        [Initiated, Broadcasting, Collecting_responses],
        [Initiated, Broadcasting, Collecting_responses, Negotiating],
        [Initiated, Broadcasting, Collecting_responses, Deciding, Completed],
        [Initiated, Broadcasting, Collecting_responses, Negotiating, Deciding, Completed]}"
proof (cases rule: run_cases [of svc ini orc rt q u d b])
  case unknown
  then show ?thesis by simp
next
  case (collect_raises a st5 e)
  from collect_responses_frame [OF collect_raises(2)] collect_raises(3)
  show ?thesis by (simp add: open_session_facts)
next
  case (negotiation_raises a st5 st6 e)
  from collect_responses_frame [OF negotiation_raises(2)]
    negotiation_round_frame(5) [OF negotiation_raises(3)] negotiation_raises(4)
  show ?thesis by (simp add: open_session_facts)
next
  case (returns a st5 st6 st7)
  from collect_responses_frame [OF returns(2)] negotiation_round_frame(5) [OF returns(3)]
    decide_facts(2) [OF returns(4)] returns(5)
  show ?thesis by (simp add: open_session_facts)
qed

text \<open>
  C5. The values assigned to the status of a session, in the order of assignment, are an
  initial part of the phase list \<open>initiated\<close>, \<open>broadcasting\<close>,
  \<open>collecting_responses\<close>, \<open>negotiating\<close>, \<open>deciding\<close>, \<open>completed\<close>, or of that
  list without \<open>negotiating\<close>. So the status only moves forward, it is never
  \<open>collecting_responses\<close> again once it has been \<open>negotiating\<close>, and it is never
  \<open>failed\<close>.
\<close>

theorem C5_status_monotone:
  "(prefix (status_trace (initiate_negotiation svc orc ini rt q u d b)) phase_list
    \<or> prefix (status_trace (initiate_negotiation svc orc ini rt q u d b))
         (remove1 Negotiating phase_list))
   \<and> sorted_wrt (<) (map phase_index (status_trace (initiate_negotiation svc orc ini rt q u d b)))
   \<and> Collecting_responses \<notin> set (dropWhile (\<lambda>s. s \<noteq> Negotiating)
         (status_trace (initiate_negotiation svc orc ini rt q u d b)))
   \<and> Failed \<notin> set (status_trace (initiate_negotiation svc orc ini rt q u d b))"
  using status_trace_cases [of svc orc ini rt q u d b]
  by (auto simp: phase_list_def)

lemma declining_analysis:
  "judged_declining reply \<Longrightarrow>
     \<exists>kvs. analyze_request agent reply = Inr (JObj kvs) \<and> \<not> truthy_opt (map_of kvs ''can_help'')"
proof (cases reply)
  case (Raises e)
  then show ?thesis by (simp add: analyze_request_def)
next
  case (Parsed j)
  assume "judged_declining reply"
  with Parsed show ?thesis
    by (cases j) (simp_all add: judged_declining_def analyze_request_def)
qed

lemma collect_one_declining:
  assumes "map_of ags hid = Some agent" and "judged_declining (an hid)"
  shows "\<exists>st'. collect_one ags an rt hid st = (st', None)
            \<and> offers (session st') = offers (session st)"
proof -
  from declining_analysis [OF assms(2), of agent] obtain kvs where
    "analyze_request agent (an hid) = Inr (JObj kvs)" "\<not> truthy_opt (map_of kvs ''can_help'')"
    by blast
  with assms(1) show ?thesis
    by (simp add: collect_one_def Let_def st_defs)
qed

lemma collect_responses_declining:
  assumes "list_all (\<lambda>hid. judged_declining (an hid)) hids" and "set hids \<subseteq> fst ` set ags"
  shows "\<exists>st'. collect_responses ags an rt hids st = (st', None)
            \<and> offers (session st') = offers (session st)"
  using assms
proof (induction hids arbitrary: st)
  case Nil
  then show ?case by simp
next
  case (Cons hid hids)
  from Cons.prems(2) have "map_of ags hid \<noteq> None"
    by (simp add: map_of_eq_None_iff)
  then obtain agent where "map_of ags hid = Some agent" by blast
  moreover from Cons.prems(1) have "judged_declining (an hid)" by simp
  ultimately obtain st1 where one: "collect_one ags an rt hid st = (st1, None)"
    "offers (session st1) = offers (session st)"
    using collect_one_declining by blast
  from Cons.prems have "list_all (\<lambda>hid. judged_declining (an hid)) hids" "set hids \<subseteq> fst ` set ags"
    by simp_all
  from Cons.IH [OF this, of st1] one show ?case by simp
qed

text \<open>
  C6. When the initiator is a known hospital and every participant declines (by its
  judgment or because its oracle exchange fails), the run returns; the session is
  \<open>completed\<close> and has no offer; its final agreement, also carried by the last event
  \<open>negotiation_completed\<close>, is the failure decision: \<open>success\<close> false, the three
  recommendations (increase the budget, reduce the quantity, extend the timeline), and
  no selected offer, so no agreement with a supplier.
\<close>

theorem C6_all_decline:
  assumes "map_of (agents svc) ini = Some a"
    and "list_all (\<lambda>hid. judged_declining (analyze_reply orc hid))
           (filter (\<lambda>hid. hid \<noteq> ini) (map fst (agents svc)))"
  shows "\<exists>st. initiate_negotiation svc orc ini rt q u d b = Run st None
           \<and> status (session st) = Completed
           \<and> offers (session st) = []
           \<and> final_agreement (session st) = Some no_offers_decision
           \<and> last (yielded st) = Negotiation_completed no_offers_decision
           \<and> dict_get no_offers_decision ''success'' = Inr (Some (JBool False))
           \<and> dict_get no_offers_decision ''recommendations'' =
               Inr (Some (JList [JStr ''Try increasing budget'', JStr ''Reduce quantity'',
                                 JStr ''Extend timeline'']))
           \<and> dict_get no_offers_decision ''selected_offers'' = Inr None"
proof -
  let ?ps = "filter (\<lambda>hid. hid \<noteq> ini) (map fst (agents svc))"
  let ?st4 = "open_session svc ini a rt q u d b"
  have "set ?ps \<subseteq> fst ` set (agents svc)" by auto
  from collect_responses_declining [OF assms(2) this, of rt ?st4] obtain st5 where
    c: "collect_responses (agents svc) (analyze_reply orc) rt ?ps ?st4 = (st5, None)"
    and o5: "offers (session st5) = []"
    by (auto simp: open_session_facts)
  from o5 have n: "negotiation_round (agents svc) (negotiate_reply orc) st5 = (st5, None)"
    by (simp add: negotiation_round_def)
  obtain st7 r7 where dd: "decide (decision_reply orc) st5 = (st7, r7)"
    by (cases "decide (decision_reply orc) st5")
  from decide_facts(1) [OF dd] o5 have
    y: "yielded st7 = yielded st5 @ [Making_decision, Negotiation_completed no_offers_decision]"
    and f: "final_agreement (session st7) = Some no_offers_decision"
    by (auto simp: make_decision_def no_offers_decision_def)
  from decide_facts(3,4,6) [OF dd] o5 have
    s: "status (session st7) = Completed" "offers (session st7) = []" "r7 = None"
    by simp_all
  from assms(1) c n dd s have "initiate_negotiation svc orc ini rt q u d b = Run st7 None"
    by (simp add: initiate_negotiation_def Let_def open_session_facts)
  with y f s show ?thesis
    by (simp add: no_offers_decision_def)
qed

theorem C6_all_decline_witness:
  "\<exists>st. initiate_negotiation demo_service declining_oracle ''HOSP_A'' ''ventilators'' 8 ''high''
           3 500000 = Run st None
        \<and> status (session st) = Completed
        \<and> offers (session st) = []
        \<and> final_agreement (session st) = Some no_offers_decision"
proof -
  have 1: "map_of (agents demo_service) ''HOSP_A'' =
      Some (HospitalAgent ''HOSP_A'' ''Apollo City Hospital'' (Some ''Private Multi-specialty''))"
    by (simp add: demo_service_def)
  have 2: "list_all (\<lambda>hid. judged_declining (analyze_reply declining_oracle hid))
           (filter (\<lambda>hid. hid \<noteq> ''HOSP_A'') (map fst (agents demo_service)))"
    by (simp add: demo_service_def declining_oracle_def judged_declining_def
          declining_judgment_def)
  from C6_all_decline [OF 1 2, of "''ventilators''" 8 "''high''" 3 500000]
  show ?thesis by blast
qed

text \<open>
  C3, as stated, fails: a judgment that is valid JSON and says only that the agent can
  help comes back from \<open>analyze_request\<close> unchanged, with \<open>can_help\<close> still true, and
  the construction of the offer then raises \<open>KeyError\<close> for the missing quantity.
\<close>

theorem C3_counterexample:
  "analyze_request (HospitalAgent ''HOSP_B'' ''Max Super Specialty Hospital''
                      (Some ''Private Tertiary Care''))
       (Parsed (JObj [(''can_help'', JBool True)]))
     = Inr (JObj [(''can_help'', JBool True)])
   \<and> raised (initiate_negotiation demo_service terse_oracle ''HOSP_A'' ''ventilators'' 8
               ''high'' 3 500000)
     = Some (KeyError ''quantity_available'')"
  by (simp add: run_defs example_defs terse_oracle_def)

text \<open>
  C3, amended. \<open>analyze_request\<close> checks no field: it returns the parsed value as it is,
  and builds the denial (\<open>can_help\<close> false, \<open>confidence\<close> 0) only when the exchange
  raises. For a judgment that is a dict with a true \<open>can_help\<close> and with the entries
  \<open>quantity_available\<close> and \<open>proposed_price_per_unit\<close>, the collecting step raises
  nothing and appends the offer built from these two entries, whatever their JSON type.
\<close>

theorem C3_judgment_not_validated:
  "analyze_request agent (Parsed j) = Inr j
   \<and> (\<exists>why. analyze_request agent (Raises e) =
         Inr (JObj [(''can_help'', JBool False), (''reasoning'', JStr why),
                    (''confidence'', JNum 0)]))
   \<and> (map_of ags hid = Some agent \<and> an hid = Parsed (JObj kvs)
        \<and> truthy_opt (map_of kvs ''can_help'')
        \<and> map_of kvs ''quantity_available'' = Some qa
        \<and> map_of kvs ''proposed_price_per_unit'' = Some pr \<longrightarrow>
       snd (collect_one ags an rt hid st) = None
       \<and> offers (session (fst (collect_one ags an rt hid st))) =
           offers (session st) @
             [\<lparr>offer_hospital_id = hid,
               offer_hospital_name = hospital_name agent,
               offer_resource_type = rt,
               offer_quantity = qa,
               offer_price_per_unit = pr,
               offer_conditions = or_default (map_of kvs ''conditions'') (JList [])\<rparr>])"
  by (auto simp: analyze_request_def collect_one_def Let_def st_defs)

theorem C3_judgment_not_validated_witness:
  "snd (collect_one (agents demo_service) (analyze_reply example_oracle) ''ventilators'' ''HOSP_B''
          (open_session demo_service ''HOSP_A''
             (HospitalAgent ''HOSP_A'' ''Apollo City Hospital'' (Some ''Private Multi-specialty''))
             ''ventilators'' 8 ''high'' 3 500000)) = None
   \<and> offers (session (fst (collect_one (agents demo_service) (analyze_reply example_oracle)
          ''ventilators'' ''HOSP_B''
          (open_session demo_service ''HOSP_A''
             (HospitalAgent ''HOSP_A'' ''Apollo City Hospital'' (Some ''Private Multi-specialty''))
             ''ventilators'' 8 ''high'' 3 500000)))) =
       [\<lparr>offer_hospital_id = ''HOSP_B'',
         offer_hospital_name = ''Max Super Specialty Hospital'',
         offer_resource_type = ''ventilators'',
         offer_quantity = JNum 3,
         offer_price_per_unit = JNum 5000,
         offer_conditions = JList [JStr ''return within 7 days'']\<rparr>]"
proof -
  let ?agent = "HospitalAgent ''HOSP_B'' ''Max Super Specialty Hospital'' (Some ''Private Tertiary Care'')"
  let ?kvs = "[(''can_help'', JBool True),
           (''quantity_available'', JNum 3),
           (''proposed_price_per_unit'', JNum 5000),
           (''conditions'', JList [JStr ''return within 7 days'']),
           (''reasoning'', JStr ''spare capacity''),
           (''confidence'', JNum 85)]"
  have h: "map_of (agents demo_service) ''HOSP_B'' = Some ?agent
      \<and> analyze_reply example_oracle ''HOSP_B'' = Parsed (JObj ?kvs)
      \<and> truthy_opt (map_of ?kvs ''can_help'')
      \<and> map_of ?kvs ''quantity_available'' = Some (JNum 3)
      \<and> map_of ?kvs ''proposed_price_per_unit'' = Some (JNum 5000)"
    by (simp add: demo_service_def example_oracle_def helpful_judgment_def)
  from h C3_judgment_not_validated [of ?agent "JNull" "OtherError []" "agents demo_service"
      "''HOSP_B''" "analyze_reply example_oracle" ?kvs "JNum 3" "JNum 5000" "''ventilators''"
      "open_session demo_service ''HOSP_A''
             (HospitalAgent ''HOSP_A'' ''Apollo City Hospital'' (Some ''Private Multi-specialty''))
             ''ventilators'' 8 ''high'' 3 500000"]
  show ?thesis
    by (simp add: open_session_facts HospitalAgent_def)
qed





text \<open>
  C7 on the code. In the demo registry HOSP\_A asks; HOSP\_B and HOSP\_C each offer at
  4500 per unit, and each then asks for an adjustment to 4000 with a new condition. The
  run yields \<open>offer_adjusted\<close> for both, with the adjustment as payload, and returns;
  the offers of the session still carry the price 4500 and the old conditions.
\<close>

theorem C7_adjustment_not_applied:
  "raised (initiate_negotiation demo_service eager_oracle ''HOSP_A'' ''ventilators'' 8 ''high''
             3 500000) = None
   \<and> filter (\<lambda>e. event_name e = ''offer_adjusted'')
        (emitted (initiate_negotiation demo_service eager_oracle ''HOSP_A'' ''ventilators'' 8
                    ''high'' 3 500000))
       = [Offer_adjusted ''Max Super Specialty Hospital'' (adjusting_judgment 4000),
          Offer_adjusted ''Fortis Medical Centre'' (adjusting_judgment 4000)]
   \<and> map_option (\<lambda>s. map (\<lambda>ofr. (offer_hospital_id ofr, offer_price_per_unit ofr,
                                     offer_conditions ofr)) (offers s))
        (final_session (initiate_negotiation demo_service eager_oracle ''HOSP_A'' ''ventilators''
                          8 ''high'' 3 500000))
       = Some [(''HOSP_B'', JNum 4500, JList [JStr ''return within 7 days'']),
               (''HOSP_C'', JNum 4500, JList [JStr ''return within 7 days''])]"
  by (simp add: run_defs example_defs eager_oracle_def)

section \<open>Properties of the LangGraph fallbacks\<close>

lemma price_key_le:
  "(price_key \<lparr>lg_hospital_id = a, total_price = Some p\<rparr>
      \<le> price_key \<lparr>lg_hospital_id = b, total_price = Some q\<rparr>) = (p \<le> q)"
  "price_key \<lparr>lg_hospital_id = a, total_price = Some p\<rparr>
      < price_key \<lparr>lg_hospital_id = b, total_price = None\<rparr>"
  by (simp_all add: price_key_def less_eq_prod_def less_prod_def)

lemma fallback_ranking:
  "llm = No_llm \<or> llm = Llm_fails \<Longrightarrow>
     ranked_offers (evaluate_offers llm offs) = sort_key price_key offs"
  by (auto simp: evaluate_offers_def Let_def)

text \<open>
  C8. Without a language model, and when its evaluation fails, the ranking is the list of
  offers sorted by total price, ascending (an offer without a total price comes after
  every priced one): it is a rearrangement of the offers, and offers with the same key
  keep the order in which they were collected. The top choice is the first of the
  ranking. For the offers B (total 15000) and C (total 31500), in either order, the
  ranking is B, C and the top choice is B.
\<close>

theorem C8_fallback_ranking:
  "sorted (map price_key (ranked_offers (evaluate_offers No_llm offs)))
   \<and> mset (ranked_offers (evaluate_offers No_llm offs)) = mset offs
   \<and> filter (\<lambda>x. price_key x = k) (ranked_offers (evaluate_offers No_llm offs))
       = filter (\<lambda>x. price_key x = k) offs
   \<and> ranked_offers (evaluate_offers Llm_fails offs) = ranked_offers (evaluate_offers No_llm offs)
   \<and> top_choice (evaluate_offers No_llm offs)
       = (case ranked_offers (evaluate_offers No_llm offs) of [] \<Rightarrow> None | x # xs \<Rightarrow> Some x)
   \<and> (price_key \<lparr>lg_hospital_id = a, total_price = Some p\<rparr>
         \<le> price_key \<lparr>lg_hospital_id = b, total_price = Some q\<rparr>) = (p \<le> q)
   \<and> price_key \<lparr>lg_hospital_id = a, total_price = Some p\<rparr>
         < price_key \<lparr>lg_hospital_id = b, total_price = None\<rparr>
   \<and> evaluate_offers No_llm
         [\<lparr>lg_hospital_id = ''B'', total_price = Some 15000\<rparr>,
          \<lparr>lg_hospital_id = ''C'', total_price = Some 31500\<rparr>]
       = \<lparr>ranked_offers = [\<lparr>lg_hospital_id = ''B'', total_price = Some 15000\<rparr>,
                            \<lparr>lg_hospital_id = ''C'', total_price = Some 31500\<rparr>],
           top_choice = Some \<lparr>lg_hospital_id = ''B'', total_price = Some 15000\<rparr>\<rparr>
   \<and> evaluate_offers No_llm
         [\<lparr>lg_hospital_id = ''C'', total_price = Some 31500\<rparr>,
          \<lparr>lg_hospital_id = ''B'', total_price = Some 15000\<rparr>]
       = \<lparr>ranked_offers = [\<lparr>lg_hospital_id = ''B'', total_price = Some 15000\<rparr>,
                            \<lparr>lg_hospital_id = ''C'', total_price = Some 31500\<rparr>],
           top_choice = Some \<lparr>lg_hospital_id = ''B'', total_price = Some 15000\<rparr>\<rparr>
   \<and> ranked_offers (evaluate_offers No_llm
         [\<lparr>lg_hospital_id = ''C'', total_price = Some 15000\<rparr>,
          \<lparr>lg_hospital_id = ''B'', total_price = Some 15000\<rparr>])
       = [\<lparr>lg_hospital_id = ''C'', total_price = Some 15000\<rparr>,
          \<lparr>lg_hospital_id = ''B'', total_price = Some 15000\<rparr>]"
proof -
  have r: "ranked_offers (evaluate_offers No_llm offs) = sort_key price_key offs"
    by (simp add: fallback_ranking)
  have r': "ranked_offers (evaluate_offers Llm_fails offs) = sort_key price_key offs"
    by (simp add: fallback_ranking)
  have ex1: "evaluate_offers No_llm
         [\<lparr>lg_hospital_id = ''B'', total_price = Some 15000\<rparr>,
          \<lparr>lg_hospital_id = ''C'', total_price = Some 31500\<rparr>]
       = \<lparr>ranked_offers = [\<lparr>lg_hospital_id = ''B'', total_price = Some 15000\<rparr>,
                            \<lparr>lg_hospital_id = ''C'', total_price = Some 31500\<rparr>],
           top_choice = Some \<lparr>lg_hospital_id = ''B'', total_price = Some 15000\<rparr>\<rparr>"
    by (simp add: evaluate_offers_def price_key_def less_eq_prod_def less_prod_def)
  have ex2: "evaluate_offers No_llm
         [\<lparr>lg_hospital_id = ''C'', total_price = Some 31500\<rparr>,
          \<lparr>lg_hospital_id = ''B'', total_price = Some 15000\<rparr>]
       = \<lparr>ranked_offers = [\<lparr>lg_hospital_id = ''B'', total_price = Some 15000\<rparr>,
                            \<lparr>lg_hospital_id = ''C'', total_price = Some 31500\<rparr>],
           top_choice = Some \<lparr>lg_hospital_id = ''B'', total_price = Some 15000\<rparr>\<rparr>"
    by (simp add: evaluate_offers_def price_key_def less_eq_prod_def less_prod_def)
  have ex3: "ranked_offers (evaluate_offers No_llm
         [\<lparr>lg_hospital_id = ''C'', total_price = Some 15000\<rparr>,
          \<lparr>lg_hospital_id = ''B'', total_price = Some 15000\<rparr>])
       = [\<lparr>lg_hospital_id = ''C'', total_price = Some 15000\<rparr>,
          \<lparr>lg_hospital_id = ''B'', total_price = Some 15000\<rparr>]"
    by (simp add: evaluate_offers_def price_key_def less_eq_prod_def less_prod_def)
  have tc: "top_choice (evaluate_offers No_llm offs)
       = (case ranked_offers (evaluate_offers No_llm offs) of [] \<Rightarrow> None | x # xs \<Rightarrow> Some x)"
    by (simp add: evaluate_offers_def Let_def)
  show ?thesis
    unfolding r r' using ex1 ex2 ex3 tc r price_key_le
    by (simp add: sort_key_stable)
qed

lemma step_no_llm:
  "negotiation_step None n cur tgt =
     \<lparr>round_num = n, our_offer = max (cur - cur * (5 / 100)) tgt,
      their_response = Some (max (cur - cur * (5 / 100)) tgt),
      accepted = (n = 3 \<or> max (cur - cur * (5 / 100)) tgt \<le> tgt)\<rparr>"
  by (simp add: negotiation_step_def Let_def)

text \<open>
  C9. Without a language model a round offers the current price less 5 percent, but not
  less than the target price, and the other side answers with the same price. The loop
  returns after at least one and at most three rounds, numbered from 1; the round it
  stops at is accepted and no earlier one is; a third round is accepted whatever the
  target. From 100000, with a target of at most 90250, the first two rounds offer 95000
  and 90250. With the target 0 that the service computes when the need analysis has no
  \<open>max_acceptable_price_per_unit\<close>, the third round is accepted at 85737.5.
\<close>

theorem C9_fallback_rounds:
  "our_offer (negotiation_step None n cur tgt) = max (cur - cur * (5 / 100)) tgt
   \<and> their_response (negotiation_step None n cur tgt) = Some (max (cur - cur * (5 / 100)) tgt)
   \<and> accepted (negotiation_step None 3 cur tgt)
   \<and> (\<exists>rounds final.
         negotiation_loop None tgt [1, 2, 3] cur [] = Inr (rounds, final)
         \<and> 1 \<le> length rounds \<and> length rounds \<le> 3
         \<and> map round_num rounds = [1 ..< Suc (length rounds)]
         \<and> accepted (last rounds)
         \<and> list_all (\<lambda>rd. \<not> accepted rd) (butlast rounds)
         \<and> their_response (last rounds) = Some final)
   \<and> (tgt \<le> 90250 \<longrightarrow>
        (\<exists>rounds final.
           negotiation_loop None tgt [1, 2, 3] 100000 [] = Inr (rounds, final)
           \<and> take 2 (map our_offer rounds) = [95000, 90250]))
   \<and> negotiate None None qty [\<lparr>lg_hospital_id = h, total_price = Some 100000\<rparr>]
       = Inr ([\<lparr>round_num = 1, our_offer = 95000, their_response = Some 95000,
                 accepted = False\<rparr>,
               \<lparr>round_num = 2, our_offer = 90250, their_response = Some 90250,
                 accepted = False\<rparr>,
               \<lparr>round_num = 3, our_offer = 171475 / 2, their_response = Some (171475 / 2),
                 accepted = True\<rparr>],
              Some \<lparr>top_offer = \<lparr>lg_hospital_id = h, total_price = Some 100000\<rparr>,
                    negotiated_price = 171475 / 2,
                    original_price = Some 100000,
                    savings = 28525 / 2,
                    negotiation_rounds = 3\<rparr>)"
proof -
  have loop: "\<exists>rounds final.
         negotiation_loop None tgt [1, 2, 3] cur [] = Inr (rounds, final)
         \<and> 1 \<le> length rounds \<and> length rounds \<le> 3
         \<and> map round_num rounds = [1 ..< Suc (length rounds)]
         \<and> accepted (last rounds)
         \<and> list_all (\<lambda>rd. \<not> accepted rd) (butlast rounds)
         \<and> their_response (last rounds) = Some final"
    by (simp add: step_no_llm Let_def upt_rec)
  have ex: "tgt \<le> 90250 \<longrightarrow>
        (\<exists>rounds final.
           negotiation_loop None tgt [1, 2, 3] 100000 [] = Inr (rounds, final)
           \<and> take 2 (map our_offer rounds) = [95000, 90250])"
    by (simp add: step_no_llm Let_def)
  have conc: "negotiate None None qty [\<lparr>lg_hospital_id = h, total_price = Some 100000\<rparr>]
       = Inr ([\<lparr>round_num = 1, our_offer = 95000, their_response = Some 95000,
                 accepted = False\<rparr>,
               \<lparr>round_num = 2, our_offer = 90250, their_response = Some 90250,
                 accepted = False\<rparr>,
               \<lparr>round_num = 3, our_offer = 171475 / 2, their_response = Some (171475 / 2),
                 accepted = True\<rparr>],
              Some \<lparr>top_offer = \<lparr>lg_hospital_id = h, total_price = Some 100000\<rparr>,
                    negotiated_price = 171475 / 2,
                    original_price = Some 100000,
                    savings = 28525 / 2,
                    negotiation_rounds = 3\<rparr>)"
    by (simp add: negotiate_def step_no_llm Let_def)
  from loop ex conc show ?thesis
    by (simp add: step_no_llm)
qed

theorem C9_fallback_rounds_witness:
  "(80000 :: real) \<le> 90250
   \<and> (\<exists>rounds final.
         negotiation_loop None 80000 [1, 2, 3] 100000 [] = Inr (rounds, final)
         \<and> take 2 (map our_offer rounds) = [95000, 90250])"
proof -
  have h: "(80000 :: real) \<le> 90250" by simp
  have "(80000 :: real) \<le> 90250 \<longrightarrow>
        (\<exists>rounds final.
           negotiation_loop None 80000 [1, 2, 3] 100000 [] = Inr (rounds, final)
           \<and> take 2 (map our_offer rounds) = [95000, 90250])"
    using C9_fallback_rounds [of 1 100000 80000 1 "''H002''"] by blast
  with h show ?thesis by blast
qed

end
